theory Spec2Isabelle
  imports Complex_Main "HOL-Library.Char_ord" "HOL-Library.List_Lexorder"
begin

section \<open>Common Python notions\<close>

text \<open>
  Exceptions the modelled functions could raise: a missing dictionary key
  (\<^verbatim>\<open>worker['strikes']\<close>) and a division by zero.
\<close>

datatype py_error = KeyError | ZeroDivisionError

text \<open>Python's \<^verbatim>\<open>a / b\<close> on numbers: raises on a zero divisor.\<close>

definition py_truediv :: "real \<Rightarrow> real \<Rightarrow> py_error + real" where
  "py_truediv a b = (if b = 0 then Inl ZeroDivisionError else Inr (a / b))"

text \<open>Python's \<^verbatim>\<open>str\<close> on an integer, used by the f-strings.\<close>

fun digits10 :: "nat \<Rightarrow> string" where
  "digits10 n =
     (if n < 10 then [''0123456789'' ! n]
      else digits10 (n div 10) @ [''0123456789'' ! (n mod 10)])"

declare digits10.simps [simp del]

definition py_str :: "int \<Rightarrow> string" where
  "py_str i = (if i < 0 then CHR ''-'' # digits10 (nat (- i)) else digits10 (nat i))"

text \<open>Python's \<^verbatim>\<open>sep.join(items)\<close>.\<close>

fun join :: "string \<Rightarrow> string list \<Rightarrow> string" where
  "join sep [] = []"
| "join sep [x] = x"
| "join sep (x # y # ys) = x @ sep @ join sep (y # ys)"

section \<open>Geometry and association rules (visionsafe/backend/ppe\_detection.py)\<close>

text \<open>
  A bounding box is the four coordinates \<open>(x1, y1, x2, y2)\<close>; coordinates are modelled
  as real numbers, and the decimal constants of the source (0.1, 0.2, 0.4, 0.7) as the
  fractions they denote. Class ids are the integer codes of the detector (0 is a person,
  1 to 6 are equipment kinds), for which \<^verbatim>\<open>int(ppe_class)\<close> is the identity.
\<close>

type_synonym box = "real \<times> real \<times> real \<times> real"

definition calculate_iou :: "box \<Rightarrow> box \<Rightarrow> py_error + real" where
  "calculate_iou box1 box2 =
     (case box1 of (a0, a1, a2, a3) \<Rightarrow>
      case box2 of (b0, b1, b2, b3) \<Rightarrow>
        let x1 = max a0 b0;
            y1 = max a1 b1;
            x2 = min a2 b2;
            y2 = min a3 b3;
            intersection = max 0 (x2 - x1) * max 0 (y2 - y1);
            area1 = (a2 - a0) * (a3 - a1);
            area2 = (b2 - b0) * (b3 - b1);
            union = area1 + area2 - intersection
        in if union > 0 then py_truediv intersection union else Inr 0)"

definition is_associated :: "box \<Rightarrow> box \<Rightarrow> int \<Rightarrow> py_error + bool" where
  "is_associated person_box item_box item_class =
     (case person_box of (px1, py1, px2, py2) \<Rightarrow>
      case item_box of (ix1, iy1, ix2, iy2) \<Rightarrow>
        let person_width = px2 - px1;
            person_height = py2 - py1;
            cx = (ix1 + ix2) / 2;
            cy = (iy1 + iy2) / 2
        in
        if item_class \<in> set [1, 2] then
          let top_third = py1 + person_height / 3
          in Inr ((py1 \<le> cy \<and> cy \<le> top_third) \<and> (px1 \<le> cx \<and> cx \<le> px2))
        else if item_class = 6 then
          let bottom_fifth = py2 - person_height / 5
          in Inr ((bottom_fifth \<le> cy \<and> cy \<le> py2) \<and> (px1 \<le> cx \<and> cx \<le> px2))
        else if item_class = 3 then
          let upper_middle = py1 + person_height * (4 / 10)
          in Inr ((py1 \<le> cy \<and> cy \<le> upper_middle) \<and> (px1 \<le> cx \<and> cx \<le> px2))
        else if item_class = 4 then
          let torso_top = py1 + person_height * (2 / 10);
              torso_bottom = py1 + person_height * (7 / 10)
          in Inr ((torso_top \<le> cy \<and> cy \<le> torso_bottom) \<and> (px1 \<le> cx \<and> cx \<le> px2))
        else if item_class = 5 then
          (case calculate_iou person_box item_box of
             Inl e \<Rightarrow> Inl e
           | Inr iou \<Rightarrow> Inr (iou > 1 / 10))
        else
          Inr ((px1 \<le> cx \<and> cx \<le> px2) \<and> (py1 \<le> cy \<and> cy \<le> py2)))"

text \<open>
  The dictionary \<^verbatim>\<open>class_mapping\<close> of \<^verbatim>\<open>get_missing_gear\<close>, and the name given to
  a class id: \<^verbatim>\<open>class_mapping.get(int(ppe_class), f"Class_{ppe_class}")\<close>.
\<close>

definition class_mapping :: "int \<rightharpoonup> string" where
  "class_mapping =
     [1 \<mapsto> ''Helmet'', 2 \<mapsto> ''Welding Helmet'', 3 \<mapsto> ''Goggles'',
      4 \<mapsto> ''Vest'', 5 \<mapsto> ''Gloves'', 6 \<mapsto> ''Shoes'']"

definition gear_name :: "int \<Rightarrow> string" where
  "gear_name ppe_class =
     (case class_mapping ppe_class of
        Some name \<Rightarrow> name
      | None \<Rightarrow> ''Class_'' @ py_str ppe_class)"

text \<open>
  The loop over \<^verbatim>\<open>zip(ppe_boxes, ppe_classes)\<close> that fills the set
  \<^verbatim>\<open>detected_gear\<close>.
\<close>

fun detected_gear :: "box \<Rightarrow> (box \<times> int) list \<Rightarrow> string set \<Rightarrow> py_error + string set" where
  "detected_gear person_box [] acc = Inr acc"
| "detected_gear person_box ((ppe_box, ppe_class) # rest) acc =
     (case is_associated person_box ppe_box ppe_class of
        Inl e \<Rightarrow> Inl e
      | Inr a \<Rightarrow>
          detected_gear person_box rest
            (if a then insert (gear_name ppe_class) acc else acc))"

text \<open>The dictionary \<^verbatim>\<open>required_ppe\<close>, in insertion order.\<close>

definition required_ppe :: "(string \<times> string) list" where
  "required_ppe = [(''Vest'', ''Vest''), (''Gloves'', ''Gloves''), (''Shoes'', ''Shoes'')]"

text \<open>The second half of \<^verbatim>\<open>get_missing_gear\<close>: the missing items of a detected set.\<close>

definition missing_of :: "string set \<Rightarrow> string list" where
  "missing_of detected =
     (let missing = map snd (filter (\<lambda>(gear, label). label \<notin> detected) required_ppe);
          has_head_protection =
            list_ex (\<lambda>gear. gear \<in> detected) [''Helmet'', ''Welding Helmet'', ''Goggles'']
      in if \<not> has_head_protection then missing @ [''Headgear''] else missing)"

definition get_missing_gear :: "box \<Rightarrow> box list \<Rightarrow> int list \<Rightarrow> py_error + string list" where
  "get_missing_gear person_box ppe_boxes ppe_classes =
     (case detected_gear person_box (zip ppe_boxes ppe_classes) {} of
        Inl e \<Rightarrow> Inl e
      | Inr detected \<Rightarrow> Inr (missing_of detected))"

section \<open>The legacy rule (app\_final.py)\<close>

fun detected_gear_legacy :: "box \<Rightarrow> (box \<times> int) list \<Rightarrow> string set \<Rightarrow> string set" where
  "detected_gear_legacy person_box [] acc = acc"
| "detected_gear_legacy person_box ((ppe_box, cls_id) # rest) acc =
     (case person_box of (x1, y1, x2, y2) \<Rightarrow>
      case ppe_box of (bx1, by1, bx2, by2) \<Rightarrow>
        let center_x = (bx1 + bx2) / 2;
            center_y = (by1 + by2) / 2
        in detected_gear_legacy person_box rest
             (if (x1 < center_x \<and> center_x < x2) \<and> (y1 < center_y \<and> center_y < y2) then
                (if cls_id = 1 then insert ''Helmet'' acc
                 else if cls_id = 2 then insert ''Welding Helmet'' acc
                 else if cls_id = 3 then insert ''Goggles'' acc
                 else if cls_id = 4 then insert ''Vest'' acc
                 else if cls_id = 5 then insert ''Gloves'' acc
                 else if cls_id = 6 then insert ''Shoes'' acc
                 else acc)
              else acc))"

definition get_missing_gear_legacy :: "box \<Rightarrow> box list \<Rightarrow> int list \<Rightarrow> string list" where
  "get_missing_gear_legacy person_box ppe_boxes ppe_classes =
     (let detected = detected_gear_legacy person_box (zip ppe_boxes ppe_classes) {};
          missing = [];
          missing = (if ''Vest'' \<notin> detected then missing @ [''Vest''] else missing);
          missing = (if ''Gloves'' \<notin> detected then missing @ [''Gloves''] else missing);
          missing = (if ''Shoes'' \<notin> detected then missing @ [''Shoes''] else missing);
          has_head_protection =
            (''Helmet'' \<in> detected \<or> ''Welding Helmet'' \<in> detected \<or> ''Goggles'' \<in> detected)
      in if \<not> has_head_protection then missing @ [''Headgear''] else missing)"

text \<open>
  The test of the legacy loop on one detection, named for the statements below:
  the centre of the equipment box lies strictly inside the person box.
\<close>

definition center_inside :: "box \<Rightarrow> box \<Rightarrow> bool" where
  "center_inside person_box ppe_box =
     (case person_box of (x1, y1, x2, y2) \<Rightarrow>
      case ppe_box of (bx1, by1, bx2, by2) \<Rightarrow>
        (x1 < (bx1 + bx2) / 2 \<and> (bx1 + bx2) / 2 < x2)
        \<and> (y1 < (by1 + by2) / 2 \<and> (by1 + by2) / 2 < y2))"

text \<open>
  The labels that \<^const>\<open>missing_of\<close> looks for in the detected set, collected for the
  statements below.
\<close>

definition known_labels :: "string set" where
  "known_labels = {''Vest'', ''Gloves'', ''Shoes'', ''Helmet'', ''Welding Helmet'', ''Goggles''}"

section \<open>Strike tracking (visionsafe/backend/violations.py)\<close>

text \<open>
  A worker record is a dictionary with the keys \<^verbatim>\<open>strikes\<close>,
  \<^verbatim>\<open>last_violation\<close> and \<^verbatim>\<open>last_strike_time\<close>; a field is \<open>None\<close> when the
  key is absent, so that \<^verbatim>\<open>worker.get(key, default)\<close> and the \<^verbatim>\<open>KeyError\<close> of
  \<^verbatim>\<open>worker[key]\<close> are both visible.
\<close>

record worker =
  strikes :: "int option"
  last_violation :: "string list option"
  last_strike_time :: "real option"

text \<open>
  \<^verbatim>\<open>update_strikes\<close> mutates the worker and returns a flag; the model returns the
  worker after the call with the flag. The reading of the clock, \<^verbatim>\<open>time.time()\<close>,
  is the argument \<open>now\<close>.
\<close>

definition update_strikes ::
  "worker \<Rightarrow> string list \<Rightarrow> real \<Rightarrow> real \<Rightarrow> py_error + (worker \<times> bool)" where
  "update_strikes w missing_items cooldown now =
     (let current_signature = sort missing_items;
          last_signature = (case last_violation w of Some s \<Rightarrow> s | None \<Rightarrow> []);
          is_new_violation = (current_signature \<noteq> last_signature);
          cooldown_expired =
            (now - (case last_strike_time w of Some t \<Rightarrow> t | None \<Rightarrow> 0) > cooldown);
          has_violations = (length missing_items > 0)
      in if has_violations \<and> is_new_violation \<and> cooldown_expired then
           (case strikes w of
              None \<Rightarrow> Inl KeyError
            | Some s \<Rightarrow>
                Inr (w\<lparr>strikes := Some (s + 1),
                       last_violation := Some current_signature,
                       last_strike_time := Some now\<rparr>, True))
         else if \<not> has_violations then Inr (w\<lparr>last_violation := Some []\<rparr>, False)
         else Inr (w, False))"

text \<open>The default of the parameter \<^verbatim>\<open>cooldown\<close>.\<close>

definition cooldown_default :: real where
  "cooldown_default = 5"

definition reset_worker :: "worker \<Rightarrow> worker" where
  "reset_worker w = w\<lparr>strikes := Some 0, last_violation := Some [], last_strike_time := Some 0\<rparr>"

text \<open>
  A sequence of calls of \<^verbatim>\<open>update_strikes\<close> on one worker, each tick with its missing
  items and its clock reading; the flags returned are collected in order.
\<close>

fun run_ticks :: "real \<Rightarrow> worker \<Rightarrow> (string list \<times> real) list \<Rightarrow> py_error + (worker \<times> bool list)" where
  "run_ticks cooldown w [] = Inr (w, [])"
| "run_ticks cooldown w ((missing_items, now) # rest) =
     (case update_strikes w missing_items cooldown now of
        Inl e \<Rightarrow> Inl e
      | Inr (w', flag) \<Rightarrow>
          (case run_ticks cooldown w' rest of
             Inl e \<Rightarrow> Inl e
           | Inr (w'', flags) \<Rightarrow> Inr (w'', flag # flags)))"

definition is_fired :: "int \<Rightarrow> int \<Rightarrow> bool" where
  "is_fired strikes_count max_strikes = (strikes_count \<ge> max_strikes)"

text \<open>The default of the parameter \<^verbatim>\<open>max_strikes\<close>.\<close>

definition max_strikes_default :: int where
  "max_strikes_default = 15"

definition get_worker_status ::
  "worker \<Rightarrow> string list \<Rightarrow> int \<Rightarrow> (int \<times> int \<times> int) \<times> string \<times> bool" where
  "get_worker_status w missing_items max_strikes =
     (let strikes_count = (case strikes w of Some s \<Rightarrow> s | None \<Rightarrow> 0)
      in if strikes_count \<ge> max_strikes then ((0, 0, 255), ''FIRED!'', True)
         else if length missing_items > 0 then ((0, 165, 255), ''UNSAFE'', False)
         else ((0, 255, 0), ''SAFE'', False))"

section \<open>Violation records and the monitoring tick\<close>

text \<open>
  \<^verbatim>\<open>record_violation\<close> of visionsafe/backend/database.py. The formatted wall-clock
  time is an argument; a missing evidence path is stored as the empty string.
\<close>

record violation =
  Time :: string
  ID :: string
  Violation :: string
  Strikes :: int
  Evidence :: string

definition record_violation :: "int \<Rightarrow> string list \<Rightarrow> int \<Rightarrow> string option \<Rightarrow> string \<Rightarrow> violation" where
  "record_violation worker_id missing_items strikes_count evidence_path time_str =
     \<lparr>Time = time_str,
      ID = ''Worker-'' @ py_str worker_id,
      Violation = join '', '' missing_items,
      Strikes = strikes_count,
      Evidence = (case evidence_path of Some p \<Rightarrow> if p \<noteq> [] then p else [] | None \<Rightarrow> [])\<rparr>"

text \<open>
  \<^verbatim>\<open>save_violation\<close>: the record is appended to the stored table, of which the last
  500 rows are kept. The table is modelled as the list of its rows.
\<close>

definition save_violation :: "violation list \<Rightarrow> violation \<Rightarrow> violation list" where
  "save_violation table violation_record =
     (let df_final = table @ [violation_record]
      in drop (length df_final - 500) df_final)"

text \<open>
  The session state of the page: the worker registry, the in-memory violation log and the
  stored table.
\<close>

record session_state =
  worker_db :: "int \<rightharpoonup> worker"
  violation_log :: "violation list"
  database :: "violation list"

text \<open>
  The body of the loop over the persons of a frame in \<^verbatim>\<open>live_monitor_page\<close>
  (the drawing left out). The evidence path returned by \<^verbatim>\<open>save_snapshot\<close> and the
  formatted time are arguments.
\<close>

definition process_person ::
  "session_state \<Rightarrow> int \<Rightarrow> box \<Rightarrow> box list \<Rightarrow> int list \<Rightarrow> real \<Rightarrow> real \<Rightarrow> string option \<Rightarrow> string
     \<Rightarrow> py_error + session_state" where
  "process_person st pid pbox ppe_boxes ppe_classes cooldown now evidence_path time_str =
     (case get_missing_gear pbox ppe_boxes ppe_classes of
        Inl e \<Rightarrow> Inl e
      | Inr missing_items \<Rightarrow>
          let db = (if pid \<notin> dom (worker_db st)
                    then (worker_db st)(pid \<mapsto>
                           \<lparr>strikes = Some 0, last_violation = Some [], last_strike_time = Some 0\<rparr>)
                    else worker_db st)
          in (case db pid of
                None \<Rightarrow> Inl KeyError
              | Some w \<Rightarrow>
                  (case update_strikes w missing_items cooldown now of
                     Inl e \<Rightarrow> Inl e
                   | Inr (w', new_strike) \<Rightarrow>
                       let st1 = st\<lparr>worker_db := db(pid \<mapsto> w')\<rparr>
                       in if new_strike then
                            (case strikes w' of
                               None \<Rightarrow> Inl KeyError
                             | Some s \<Rightarrow>
                                 let v = record_violation pid missing_items s evidence_path time_str
                                 in Inr (st1\<lparr>database := save_violation (database st1) v,
                                            violation_log := violation_log st1 @ [v]\<rparr>))
                          else Inr st1)))"

text \<open>The administrative clear of the registry and the log (pages/violations\_log.py).\<close>

definition clear_registry :: "session_state \<Rightarrow> session_state" where
  "clear_registry st = st\<lparr>worker_db := Map.empty, violation_log := [], database := []\<rparr>"

section \<open>Properties of the geometry\<close>

lemma intersection_nonneg:
  fixes u v :: real
  shows "0 \<le> max 0 u * max 0 v"
  by simp

lemma intersection_le_area:
  fixes a0 a1 a2 a3 b0 b1 b2 b3 :: real
  assumes "a0 \<le> a2" "a1 \<le> a3"
  shows "max 0 (min a2 b2 - max a0 b0) * max 0 (min a3 b3 - max a1 b1)
           \<le> (a2 - a0) * (a3 - a1)"
proof (rule mult_mono)
  show "max 0 (min a2 b2 - max a0 b0) \<le> a2 - a0" using assms by auto
  show "max 0 (min a3 b3 - max a1 b1) \<le> a3 - a1" using assms by auto
  show "0 \<le> a2 - a0" using assms by simp
  show "0 \<le> max 0 (min a3 b3 - max a1 b1)" by simp
qed

lemma intersection_le_area':
  fixes a0 a1 a2 a3 b0 b1 b2 b3 :: real
  assumes "b0 \<le> b2" "b1 \<le> b3"
  shows "max 0 (min a2 b2 - max a0 b0) * max 0 (min a3 b3 - max a1 b1)
           \<le> (b2 - b0) * (b3 - b1)"
proof (rule mult_mono)
  show "max 0 (min a2 b2 - max a0 b0) \<le> b2 - b0" using assms by auto
  show "max 0 (min a3 b3 - max a1 b1) \<le> b3 - b1" using assms by auto
  show "0 \<le> b2 - b0" using assms by simp
  show "0 \<le> max 0 (min a3 b3 - max a1 b1)" by simp
qed

lemma calculate_iou_total: "\<exists>r. calculate_iou box1 box2 = Inr r"
  by (cases box1, cases box2) (simp add: calculate_iou_def py_truediv_def Let_def)

lemma calculate_iou_guard:
  "calculate_iou (a0, a1, a2, a3) (b0, b1, b2, b3) =
     (if (a2 - a0) * (a3 - a1) + (b2 - b0) * (b3 - b1)
           - max 0 (min a2 b2 - max a0 b0) * max 0 (min a3 b3 - max a1 b1) > 0
      then Inr (max 0 (min a2 b2 - max a0 b0) * max 0 (min a3 b3 - max a1 b1)
                / ((a2 - a0) * (a3 - a1) + (b2 - b0) * (b3 - b1)
                   - max 0 (min a2 b2 - max a0 b0) * max 0 (min a3 b3 - max a1 b1)))
      else Inr 0)"
  by (simp add: calculate_iou_def py_truediv_def Let_def)

lemma calculate_iou_range:
  assumes "a0 \<le> a2" "a1 \<le> a3" "b0 \<le> b2" "b1 \<le> b3"
    and "calculate_iou (a0, a1, a2, a3) (b0, b1, b2, b3) = Inr r"
  shows "0 \<le> r \<and> r \<le> 1"
proof -
  define i where "i = max 0 (min a2 b2 - max a0 b0) * max 0 (min a3 b3 - max a1 b1)"
  define A where "A = (a2 - a0) * (a3 - a1)"
  define B where "B = (b2 - b0) * (b3 - b1)"
  have i0: "0 \<le> i" unfolding i_def by (rule intersection_nonneg)
  have iA: "i \<le> A" unfolding i_def A_def using assms(1,2) by (rule intersection_le_area)
  have iB: "i \<le> B" unfolding i_def B_def using assms(3,4) by (rule intersection_le_area')
  have r: "Inr r = (if A + B - i > 0 then Inr (i / (A + B - i)) else (Inr 0 :: py_error + real))"
    using assms(5) unfolding calculate_iou_guard i_def A_def B_def by simp
  show ?thesis
  proof (cases "A + B - i > 0")
    case True
    then have "r = i / (A + B - i)" using r by simp
    moreover have "i \<le> A + B - i" using iA iB i0 by linarith
    ultimately show ?thesis using True i0 by (simp add: divide_le_eq_1)
  next
    case False
    then show ?thesis using r by simp
  qed
qed

text \<open>
  C10. \<^const>\<open>calculate_iou\<close> returns a value on every pair of boxes (the division is never
  reached with a divisor that is not positive, so no \<^const>\<open>ZeroDivisionError\<close>); when the
  union is not positive the value is 0; and on well-formed boxes (\<open>x1 \<le> x2\<close>, \<open>y1 \<le> y2\<close>)
  the value lies in the closed interval from 0 to 1.
\<close>

theorem calculate_iou_total_guarded_bounded:
  "(\<exists>r. calculate_iou (a0, a1, a2, a3) (b0, b1, b2, b3) = Inr r)
   \<and> (\<not> (a2 - a0) * (a3 - a1) + (b2 - b0) * (b3 - b1)
           - max 0 (min a2 b2 - max a0 b0) * max 0 (min a3 b3 - max a1 b1) > 0
        \<longrightarrow> calculate_iou (a0, a1, a2, a3) (b0, b1, b2, b3) = Inr 0)
   \<and> (a0 \<le> a2 \<and> a1 \<le> a3 \<and> b0 \<le> b2 \<and> b1 \<le> b3
        \<longrightarrow> (\<exists>r. calculate_iou (a0, a1, a2, a3) (b0, b1, b2, b3) = Inr r \<and> 0 \<le> r \<and> r \<le> 1))"
proof (intro conjI impI)
  show "\<exists>r. calculate_iou (a0, a1, a2, a3) (b0, b1, b2, b3) = Inr r"
    by (rule calculate_iou_total)
next
  assume "\<not> (a2 - a0) * (a3 - a1) + (b2 - b0) * (b3 - b1)
           - max 0 (min a2 b2 - max a0 b0) * max 0 (min a3 b3 - max a1 b1) > 0"
  then show "calculate_iou (a0, a1, a2, a3) (b0, b1, b2, b3) = Inr 0"
    by (simp only: calculate_iou_guard if_False)
next
  assume wf: "a0 \<le> a2 \<and> a1 \<le> a3 \<and> b0 \<le> b2 \<and> b1 \<le> b3"
  obtain r where r: "calculate_iou (a0, a1, a2, a3) (b0, b1, b2, b3) = Inr r"
    using calculate_iou_total by blast
  with wf have "0 \<le> r \<and> r \<le> 1" by (intro calculate_iou_range[of a0 a2 a1 a3 b0 b2 b1 b3 r]) auto
  with r show "\<exists>r. calculate_iou (a0, a1, a2, a3) (b0, b1, b2, b3) = Inr r \<and> 0 \<le> r \<and> r \<le> 1"
    by blast
qed

theorem calculate_iou_total_guarded_bounded_witness:
  "calculate_iou (0, 0, 10, 10) (5, 5, 25, 8) = Inr (15 / 145)
   \<and> (0 :: real) \<le> 15 / 145 \<and> (15 / 145 :: real) \<le> 1
   \<and> calculate_iou (0, 0, 0, 0) (3, 3, 3, 3) = Inr 0"
  using calculate_iou_total_guarded_bounded [of 0 0 10 10 5 5 25 8]
    calculate_iou_total_guarded_bounded [of 0 0 0 0 3 3 3 3]
  by (simp add: calculate_iou_guard)

text \<open>
  C7. The fired status is computed from the strike count alone (the worker record has no
  fired field): \<^const>\<open>is_fired\<close> holds exactly when the count has reached the maximum,
  \<^const>\<open>get_worker_status\<close> reports the same flag, and with the default maximum 15 a
  count of 15 is fired and a count of 14 is not.
\<close>

theorem is_fired_derived:
  "is_fired s m = (s \<ge> m)
   \<and> snd (snd (get_worker_status w missing_items m))
       = is_fired (case strikes w of Some c \<Rightarrow> c | None \<Rightarrow> 0) m
   \<and> is_fired 15 max_strikes_default
   \<and> \<not> is_fired 14 max_strikes_default"
  by (simp add: is_fired_def get_worker_status_def max_strikes_default_def Let_def)

theorem is_fired_derived_witness:
  "is_fired 15 15 \<and> \<not> is_fired 14 15
   \<and> get_worker_status \<lparr>strikes = Some 15, last_violation = Some [], last_strike_time = Some 0\<rparr>
        [] 15 = ((0, 0, 255), ''FIRED!'', True)
   \<and> get_worker_status \<lparr>strikes = Some 14, last_violation = Some [], last_strike_time = Some 0\<rparr>
        [''Vest''] 15 = ((0, 165, 255), ''UNSAFE'', False)"
  using is_fired_derived [of 15 15 "\<lparr>strikes = Some 15, last_violation = Some [], last_strike_time = Some 0\<rparr>" "[]"]
    is_fired_derived [of 14 15 "\<lparr>strikes = Some 14, last_violation = Some [], last_strike_time = Some 0\<rparr>" "[''Vest'']"]
  by (simp add: get_worker_status_def)

section \<open>Properties of the strike state machine\<close>

lemma update_strikes_empty:
  "update_strikes w [] cooldown now = Inr (w\<lparr>last_violation := Some []\<rparr>, False)"
  by (simp add: update_strikes_def)

lemma update_strikes_nonempty:
  assumes "missing_items \<noteq> []" and "strikes w = Some n"
  shows "update_strikes w missing_items cooldown now =
     (if sort missing_items \<noteq> (case last_violation w of Some s \<Rightarrow> s | None \<Rightarrow> [])
         \<and> now - (case last_strike_time w of Some t \<Rightarrow> t | None \<Rightarrow> 0) > cooldown
      then Inr (w\<lparr>strikes := Some (n + 1), last_violation := Some (sort missing_items),
                   last_strike_time := Some now\<rparr>, True)
      else Inr (w, False))"
  using assms by (simp add: update_strikes_def Let_def)

lemma update_strikes_flag_nonempty:
  "update_strikes w missing_items cooldown now = Inr (w', True) \<Longrightarrow> missing_items \<noteq> []"
  by (auto simp: update_strikes_def Let_def split: if_splits option.splits)

lemma update_strikes_step:
  assumes "strikes w = Some n"
  shows "\<exists>w' flag. update_strikes w missing_items cooldown now = Inr (w', flag)
           \<and> strikes w' = Some (n + (if flag then 1 else 0))"
proof (cases "missing_items = []")
  case True
  then show ?thesis using assms by (auto simp: update_strikes_empty)
next
  case False
  then show ?thesis using assms by (auto simp: update_strikes_nonempty [OF False assms])
qed

lemma run_ticks_strikes:
  assumes "strikes w = Some n"
  shows "\<exists>w' flags. run_ticks cooldown w ticks = Inr (w', flags)
           \<and> length flags = length ticks
           \<and> strikes w' = Some (n + int (length (filter (\<lambda>f. f) flags)))"
  using assms
proof (induction ticks arbitrary: w n)
  case Nil
  then show ?case by simp
next
  case (Cons t ticks)
  obtain m now where t: "t = (m, now)" by (cases t)
  from update_strikes_step [OF Cons.prems, of m cooldown now]
  obtain w1 flag where s: "update_strikes w m cooldown now = Inr (w1, flag)"
    and n1: "strikes w1 = Some (n + (if flag then 1 else 0))" by blast
  from Cons.IH [OF n1, of ] obtain w2 flags where
    r: "run_ticks cooldown w1 ticks = Inr (w2, flags)" and l: "length flags = length ticks"
    and n2: "strikes w2 = Some (n + (if flag then 1 else 0) + int (length (filter (\<lambda>f. f) flags)))"
    by blast
  show ?case using s r l n2 by (simp add: t)
qed

lemma run_ticks_append:
  "run_ticks cooldown w (ts1 @ ts2) =
     (case run_ticks cooldown w ts1 of
        Inl e \<Rightarrow> Inl e
      | Inr (w1, f1) \<Rightarrow>
          (case run_ticks cooldown w1 ts2 of
             Inl e \<Rightarrow> Inl e
           | Inr (w2, f2) \<Rightarrow> Inr (w2, f1 @ f2)))"
  by (induction ts1 arbitrary: w) (auto split: sum.splits prod.splits)


lemma process_person_unfold:
  assumes m: "get_missing_gear pbox bs cs = Inr m"
    and u: "update_strikes
               (case worker_db st pid of
                  Some w \<Rightarrow> w
                | None \<Rightarrow> \<lparr>strikes = Some 0, last_violation = Some [], last_strike_time = Some 0\<rparr>)
               m cd now = Inr (w', flag)"
  shows "process_person st pid pbox bs cs cd now ev ts =
           (if flag then
              (case strikes w' of
                 None \<Rightarrow> Inl KeyError
               | Some s \<Rightarrow>
                   Inr (st\<lparr>worker_db := (worker_db st)(pid \<mapsto> w'),
                           database := save_violation (database st) (record_violation pid m s ev ts),
                           violation_log := violation_log st @ [record_violation pid m s ev ts]\<rparr>))
            else Inr (st\<lparr>worker_db := (worker_db st)(pid \<mapsto> w')\<rparr>))"
proof (cases "worker_db st pid")
  case None
  then show ?thesis using m u
    by (simp add: process_person_def Let_def domIff split: option.splits)
next
  case (Some w)
  then have "pid \<in> dom (worker_db st)" by (simp add: domI)
  then show ?thesis using m u Some
    by (simp add: process_person_def Let_def split: option.splits)
qed

lemma process_person_rejected:
  assumes m: "get_missing_gear pbox bs cs = Inr m"
    and w: "worker_db st pid = Some w"
    and u: "update_strikes w m cd now = Inr (w, False)"
  shows "process_person st pid pbox bs cs cd now ev ts
           = Inr (st\<lparr>worker_db := (worker_db st)(pid \<mapsto> w)\<rparr>)"
proof -
  have "update_strikes
               (case worker_db st pid of
                  Some w \<Rightarrow> w
                | None \<Rightarrow> \<lparr>strikes = Some 0, last_violation = Some [], last_strike_time = Some 0\<rparr>)
               m cd now = Inr (w, False)"
    using u by (simp add: w)
  from process_person_unfold [OF m this, of ev ts] show ?thesis by simp
qed

text \<open>
  C1, as the code has it. For a worker record with a strike count and a non-empty list of
  missing items, \<^const>\<open>update_strikes\<close> accepts a strike exactly when the sorted
  signature differs from the stored last-violation signature and strictly more than the
  cooldown has passed since the last accepted strike. On acceptance the count grows by
  one, the signature and the time of the last strike are set, and the flag is true; on
  rejection the record is returned unchanged with the flag false, and the monitoring tick
  of that person leaves the violation log and the stored table as they were.
\<close>

theorem update_strikes_accepts_iff_strict:
  assumes "missing_items \<noteq> []" and "strikes w = Some n"
  shows "((\<exists>w'. update_strikes w missing_items cooldown now = Inr (w', True))
            \<longleftrightarrow> (sort missing_items \<noteq> (case last_violation w of Some s \<Rightarrow> s | None \<Rightarrow> [])
                 \<and> now - (case last_strike_time w of Some t \<Rightarrow> t | None \<Rightarrow> 0) > cooldown))
       \<and> (\<forall>w'. update_strikes w missing_items cooldown now = Inr (w', True) \<longrightarrow>
              w' = w\<lparr>strikes := Some (n + 1), last_violation := Some (sort missing_items),
                      last_strike_time := Some now\<rparr>)
       \<and> ((\<nexists>w'. update_strikes w missing_items cooldown now = Inr (w', True)) \<longrightarrow>
              update_strikes w missing_items cooldown now = Inr (w, False))
       \<and> ((\<nexists>w'. update_strikes w missing_items cooldown now = Inr (w', True))
            \<and> get_missing_gear pbox bs cs = Inr missing_items \<and> worker_db st pid = Some w \<longrightarrow>
              (\<exists>st'. process_person st pid pbox bs cs cooldown now ev ts = Inr st'
                 \<and> worker_db st' pid = Some w
                 \<and> violation_log st' = violation_log st
                 \<and> database st' = database st))"
proof -
  note eq = update_strikes_nonempty [OF assms, of cooldown now]
  have a: "(\<exists>w'. update_strikes w missing_items cooldown now = Inr (w', True))
            \<longleftrightarrow> (sort missing_items \<noteq> (case last_violation w of Some s \<Rightarrow> s | None \<Rightarrow> [])
                 \<and> now - (case last_strike_time w of Some t \<Rightarrow> t | None \<Rightarrow> 0) > cooldown)"
    by (simp add: eq)
  have b: "\<forall>w'. update_strikes w missing_items cooldown now = Inr (w', True) \<longrightarrow>
              w' = w\<lparr>strikes := Some (n + 1), last_violation := Some (sort missing_items),
                      last_strike_time := Some now\<rparr>"
    by (simp add: eq)
  have c: "(\<nexists>w'. update_strikes w missing_items cooldown now = Inr (w', True)) \<longrightarrow>
              update_strikes w missing_items cooldown now = Inr (w, False)"
    by (simp add: eq)
  have d: "(\<nexists>w'. update_strikes w missing_items cooldown now = Inr (w', True))
            \<and> get_missing_gear pbox bs cs = Inr missing_items \<and> worker_db st pid = Some w \<longrightarrow>
              (\<exists>st'. process_person st pid pbox bs cs cooldown now ev ts = Inr st'
                 \<and> worker_db st' pid = Some w
                 \<and> violation_log st' = violation_log st
                 \<and> database st' = database st)"
  proof
    assume h: "(\<nexists>w'. update_strikes w missing_items cooldown now = Inr (w', True))
            \<and> get_missing_gear pbox bs cs = Inr missing_items \<and> worker_db st pid = Some w"
    with c have u: "update_strikes w missing_items cooldown now = Inr (w, False)" by blast
    from h have m: "get_missing_gear pbox bs cs = Inr missing_items"
      and w: "worker_db st pid = Some w" by blast+
    show "\<exists>st'. process_person st pid pbox bs cs cooldown now ev ts = Inr st'
                 \<and> worker_db st' pid = Some w
                 \<and> violation_log st' = violation_log st
                 \<and> database st' = database st"
      by (simp add: process_person_rejected [OF m w u])
  qed
  from a b c d show ?thesis by (intro conjI)
qed

theorem update_strikes_accepts_iff_strict_witness:
  "update_strikes
      \<lparr>strikes = Some 1, last_violation = Some [''Vest''], last_strike_time = Some 100\<rparr>
      [''Vest'', ''Gloves''] 5 106
    = Inr (\<lparr>strikes = Some 2, last_violation = Some [''Gloves'', ''Vest''],
             last_strike_time = Some 106\<rparr>, True)
   \<and> update_strikes
      \<lparr>strikes = Some 1, last_violation = Some [''Vest''], last_strike_time = Some 100\<rparr>
      [''Vest'', ''Gloves''] 5 103
    = Inr (\<lparr>strikes = Some 1, last_violation = Some [''Vest''], last_strike_time = Some 100\<rparr>,
           False)
   \<and> update_strikes
      \<lparr>strikes = Some 1, last_violation = Some [''Vest''], last_strike_time = Some 100\<rparr>
      [''Vest''] 5 200
    = Inr (\<lparr>strikes = Some 1, last_violation = Some [''Vest''], last_strike_time = Some 100\<rparr>,
           False)"
proof -
  let ?w = "\<lparr>strikes = Some 1, last_violation = Some [''Vest''], last_strike_time = Some 100\<rparr>"
  let ?st = "\<lparr>worker_db = [7 \<mapsto> ?w], violation_log = [], database = []\<rparr>"
  have ne: "[''Vest'', ''Gloves''] \<noteq> ([] :: string list)" "[''Vest''] \<noteq> ([] :: string list)"
    by simp_all
  have n: "strikes ?w = Some 1" by simp
  have s: "sort [''Vest'', ''Gloves''] = [''Gloves'', ''Vest'']" "sort [''Vest''] = [''Vest'']"
    by simp_all
  note t1 = update_strikes_accepts_iff_strict [OF ne(1) n,
      of 5 106 "(0, 0, 100, 300)" "[]" "[]" ?st 7 None "[]"]
  note t2 = update_strikes_accepts_iff_strict [OF ne(1) n,
      of 5 103 "(0, 0, 100, 300)" "[]" "[]" ?st 7 None "[]"]
  note t3 = update_strikes_accepts_iff_strict [OF ne(2) n,
      of 5 200 "(0, 0, 100, 300)" "[]" "[]" ?st 7 None "[]"]
  have "\<exists>w'. update_strikes ?w [''Vest'', ''Gloves''] 5 106 = Inr (w', True)"
    using t1 [THEN conjunct1] by (simp add: s)
  then obtain w' where a: "update_strikes ?w [''Vest'', ''Gloves''] 5 106 = Inr (w', True)"
    by blast
  with t1 [THEN conjunct2, THEN conjunct1] have
    "w' = ?w\<lparr>strikes := Some (1 + 1), last_violation := Some (sort [''Vest'', ''Gloves'']),
               last_strike_time := Some 106\<rparr>"
    by blast
  with a have c1: "update_strikes ?w [''Vest'', ''Gloves''] 5 106
    = Inr (\<lparr>strikes = Some 2, last_violation = Some [''Gloves'', ''Vest''],
             last_strike_time = Some 106\<rparr>, True)"
    by (simp add: s)
  have "\<nexists>w'. update_strikes ?w [''Vest'', ''Gloves''] 5 103 = Inr (w', True)"
    using t2 [THEN conjunct1] by (simp add: s)
  with t2 [THEN conjunct2, THEN conjunct2, THEN conjunct1]
  have c2: "update_strikes ?w [''Vest'', ''Gloves''] 5 103 = Inr (?w, False)"
    by blast
  have "\<nexists>w'. update_strikes ?w [''Vest''] 5 200 = Inr (w', True)"
    using t3 [THEN conjunct1] by (simp add: s)
  with t3 [THEN conjunct2, THEN conjunct2, THEN conjunct1]
  have c3: "update_strikes ?w [''Vest''] 5 200 = Inr (?w, False)"
    by blast
  show ?thesis by (intro conjI) (rule c1 c2 c3)+
qed

text \<open>
  The boundary: with the signature changed and exactly the cooldown (the default, 5)
  elapsed since the last strike, the strike is rejected.
\<close>

theorem update_strikes_boundary_counterexample:
  "[''Vest'', ''Gloves''] \<noteq> ([] :: string list)
   \<and> sort [''Vest'', ''Gloves''] \<noteq> [''Vest'']
   \<and> (105 :: real) - 100 \<ge> cooldown_default
   \<and> update_strikes
        \<lparr>strikes = Some 1, last_violation = Some [''Vest''], last_strike_time = Some 100\<rparr>
        [''Vest'', ''Gloves''] cooldown_default 105
      = Inr (\<lparr>strikes = Some 1, last_violation = Some [''Vest''], last_strike_time = Some 100\<rparr>,
             False)"
  by (simp add: update_strikes_def cooldown_default_def)

text \<open>
  C2, as the code has it. With no missing items \<^const>\<open>update_strikes\<close> clears the
  last-violation signature, returns false, and leaves the strike count and the time of
  the last strike as they were. A later non-empty list whose signature equals the one
  stored before the clearance would have been suppressed without the clearance; after it,
  the strike is accepted exactly when strictly more than the cooldown has passed since the
  last accepted strike, and rejected otherwise.
\<close>

theorem update_strikes_empty_clears_signature:
  "update_strikes w [] cooldown now = Inr (w\<lparr>last_violation := Some []\<rparr>, False)
   \<and> strikes (w\<lparr>last_violation := Some []\<rparr>) = strikes w
   \<and> last_strike_time (w\<lparr>last_violation := Some []\<rparr>) = last_strike_time w
   \<and> (missing_items \<noteq> [] \<and> strikes w = Some n \<and> last_violation w = Some (sort missing_items)
        \<longrightarrow> update_strikes w missing_items cooldown later = Inr (w, False)
          \<and> update_strikes (w\<lparr>last_violation := Some []\<rparr>) missing_items cooldown later =
              (if later - (case last_strike_time w of Some t \<Rightarrow> t | None \<Rightarrow> 0) > cooldown
               then Inr (w\<lparr>strikes := Some (n + 1), last_violation := Some (sort missing_items),
                            last_strike_time := Some later\<rparr>, True)
               else Inr (w\<lparr>last_violation := Some []\<rparr>, False)))"
proof (intro conjI impI)
  show "update_strikes w [] cooldown now = Inr (w\<lparr>last_violation := Some []\<rparr>, False)"
    by (rule update_strikes_empty)
next
  assume h: "missing_items \<noteq> [] \<and> strikes w = Some n \<and> last_violation w = Some (sort missing_items)"
  then show "update_strikes w missing_items cooldown later = Inr (w, False)"
    by (simp add: update_strikes_nonempty [of missing_items w n])
  from h have "length (sort missing_items) \<noteq> 0" by simp
  then have ne: "sort missing_items \<noteq> []" by (simp only: length_0_conv) simp
  from h have "strikes (w\<lparr>last_violation := Some []\<rparr>) = Some n" by simp
  from update_strikes_nonempty [OF _ this, of missing_items cooldown later] h ne
  show "update_strikes (w\<lparr>last_violation := Some []\<rparr>) missing_items cooldown later =
              (if later - (case last_strike_time w of Some t \<Rightarrow> t | None \<Rightarrow> 0) > cooldown
               then Inr (w\<lparr>strikes := Some (n + 1), last_violation := Some (sort missing_items),
                            last_strike_time := Some later\<rparr>, True)
               else Inr (w\<lparr>last_violation := Some []\<rparr>, False))"
    by simp
qed simp_all

theorem update_strikes_empty_clears_signature_witness:
  "update_strikes
      \<lparr>strikes = Some 2, last_violation = Some [''Gloves'', ''Vest''], last_strike_time = Some 6\<rparr>
      [] 5 7
    = Inr (\<lparr>strikes = Some 2, last_violation = Some [], last_strike_time = Some 6\<rparr>, False)
   \<and> update_strikes
      \<lparr>strikes = Some 2, last_violation = Some [''Gloves'', ''Vest''], last_strike_time = Some 6\<rparr>
      [''Vest'', ''Gloves''] 5 12
    = Inr (\<lparr>strikes = Some 2, last_violation = Some [''Gloves'', ''Vest''],
             last_strike_time = Some 6\<rparr>, False)
   \<and> update_strikes
      \<lparr>strikes = Some 2, last_violation = Some [], last_strike_time = Some 6\<rparr>
      [''Vest'', ''Gloves''] 5 12
    = Inr (\<lparr>strikes = Some 3, last_violation = Some [''Gloves'', ''Vest''],
             last_strike_time = Some 12\<rparr>, True)
   \<and> update_strikes
      \<lparr>strikes = Some 2, last_violation = Some [], last_strike_time = Some 6\<rparr>
      [''Vest'', ''Gloves''] 5 8
    = Inr (\<lparr>strikes = Some 2, last_violation = Some [], last_strike_time = Some 6\<rparr>, False)"
  using
    update_strikes_empty_clears_signature [of
      "\<lparr>strikes = Some 2, last_violation = Some [''Gloves'', ''Vest''], last_strike_time = Some 6\<rparr>"
      5 7 "[''Vest'', ''Gloves'']" 2 12]
    update_strikes_empty_clears_signature [of
      "\<lparr>strikes = Some 2, last_violation = Some [''Gloves'', ''Vest''], last_strike_time = Some 6\<rparr>"
      5 7 "[''Vest'', ''Gloves'']" 2 8]
  by simp

text \<open>
  The boundary after a clearance: the signature stored before the clearance comes back
  when exactly the cooldown (the default, 5) has elapsed since the last strike, and the
  strike is rejected.
\<close>

theorem update_strikes_after_clearance_boundary_counterexample:
  "update_strikes
      \<lparr>strikes = Some 2, last_violation = Some [''Gloves'', ''Vest''], last_strike_time = Some 6\<rparr>
      [] cooldown_default 7
    = Inr (\<lparr>strikes = Some 2, last_violation = Some [], last_strike_time = Some 6\<rparr>, False)
   \<and> sort [''Vest'', ''Gloves''] = [''Gloves'', ''Vest'']
   \<and> (11 :: real) - 6 \<ge> cooldown_default
   \<and> update_strikes
      \<lparr>strikes = Some 2, last_violation = Some [], last_strike_time = Some 6\<rparr>
      [''Vest'', ''Gloves''] cooldown_default 11
    = Inr (\<lparr>strikes = Some 2, last_violation = Some [], last_strike_time = Some 6\<rparr>, False)"
  by (simp add: update_strikes_def cooldown_default_def)

text \<open>
  C3. Along any sequence of calls of \<^const>\<open>update_strikes\<close> the strike count never
  decreases: after a prefix of the sequence it is the starting count plus the number of
  strikes accepted so far, one per accepted strike. \<^const>\<open>reset_worker\<close> sets the count
  to 0, and \<^const>\<open>clear_registry\<close> removes every worker.
\<close>

theorem strikes_monotone:
  assumes "strikes w = Some n"
  shows "\<exists>w1 f1 n1 w2 f2 n2.
           run_ticks cooldown w ts1 = Inr (w1, f1)
         \<and> run_ticks cooldown w (ts1 @ ts2) = Inr (w2, f1 @ f2)
         \<and> length f1 = length ts1 \<and> length f2 = length ts2
         \<and> strikes w1 = Some n1 \<and> strikes w2 = Some n2
         \<and> n1 = n + int (length (filter (\<lambda>f. f) f1))
         \<and> n2 = n1 + int (length (filter (\<lambda>f. f) f2))
         \<and> n \<le> n1 \<and> n1 \<le> n2
         \<and> strikes (reset_worker w2) = Some 0
         \<and> worker_db (clear_registry st) pid = None"
proof -
  from run_ticks_strikes [OF assms, of cooldown ts1] obtain w1 f1 where
    r1: "run_ticks cooldown w ts1 = Inr (w1, f1)" and l1: "length f1 = length ts1"
    and n1: "strikes w1 = Some (n + int (length (filter (\<lambda>f. f) f1)))" by blast
  from run_ticks_strikes [OF n1, of cooldown ts2] obtain w2 f2 where
    r2: "run_ticks cooldown w1 ts2 = Inr (w2, f2)" and l2: "length f2 = length ts2"
    and n2: "strikes w2 = Some (n + int (length (filter (\<lambda>f. f) f1))
                                  + int (length (filter (\<lambda>f. f) f2)))" by blast
  have r12: "run_ticks cooldown w (ts1 @ ts2) = Inr (w2, f1 @ f2)"
    by (simp add: run_ticks_append r1 r2)
  show ?thesis
    apply (rule exI [of _ w1], rule exI [of _ f1])
    apply (rule exI [of _ "n + int (length (filter (\<lambda>f. f) f1))"])
    apply (rule exI [of _ w2], rule exI [of _ f2])
    apply (rule exI [of _ "n + int (length (filter (\<lambda>f. f) f1)) + int (length (filter (\<lambda>f. f) f2))"])
    apply (simp add: r1 r12 l1 l2 n1 n2 reset_worker_def clear_registry_def)
    done
qed

theorem strikes_monotone_witness:
  "run_ticks 5 \<lparr>strikes = Some 0, last_violation = Some [], last_strike_time = Some 0\<rparr>
      [([''Vest''], 10), ([''Vest''], 12), ([''Vest'', ''Gloves''], 16), ([], 17)]
    = Inr (\<lparr>strikes = Some 2, last_violation = Some [], last_strike_time = Some 16\<rparr>,
           [True, False, True, False])
   \<and> strikes (reset_worker
        \<lparr>strikes = Some 2, last_violation = Some [], last_strike_time = Some 16\<rparr>) = Some 0"
  using strikes_monotone [of
      "\<lparr>strikes = Some 0, last_violation = Some [], last_strike_time = Some 0\<rparr>" 0 5
      "[([''Vest''], 10), ([''Vest''], 12)]" "[([''Vest'', ''Gloves''], 16), ([], 17)]"]
  by (simp add: update_strikes_def reset_worker_def)

section \<open>Properties of the association rules and the missing gear\<close>

lemma is_associated_total: "\<exists>a. is_associated person_box item_box item_class = Inr a"
proof -
  obtain px1 py1 px2 py2 where p: "person_box = (px1, py1, px2, py2)" by (cases person_box)
  obtain ix1 iy1 ix2 iy2 where i: "item_box = (ix1, iy1, ix2, iy2)" by (cases item_box)
  obtain r where "calculate_iou (px1, py1, px2, py2) (ix1, iy1, ix2, iy2) = Inr r"
    using calculate_iou_total by blast
  then show ?thesis unfolding p i by (simp add: is_associated_def Let_def)
qed

lemma detected_gear_eq:
  "detected_gear pb zs acc =
     Inr (acc \<union> set (map (\<lambda>z. gear_name (snd z))
                      (filter (\<lambda>z. is_associated pb (fst z) (snd z) = Inr True) zs)))"
proof (induction zs arbitrary: acc)
  case Nil
  then show ?case by simp
next
  case (Cons z zs)
  obtain b c where z: "z = (b, c)" by (cases z)
  obtain a where a: "is_associated pb b c = Inr a" using is_associated_total by blast
  show ?case
  proof (cases a)
    case True
    then show ?thesis using a Cons.IH [of "insert (gear_name c) acc"] by (simp add: z)
  next
    case False
    then show ?thesis using a Cons.IH [of acc] by (simp add: z)
  qed
qed

lemma missing_of_cong:
  assumes "\<And>l. l \<in> known_labels \<Longrightarrow> l \<in> d \<longleftrightarrow> l \<in> d'"
  shows "missing_of d = missing_of d'"
proof -
  have "''Vest'' \<in> d \<longleftrightarrow> ''Vest'' \<in> d'" by (rule assms) (simp add: known_labels_def)
  moreover have "''Gloves'' \<in> d \<longleftrightarrow> ''Gloves'' \<in> d'" by (rule assms) (simp add: known_labels_def)
  moreover have "''Shoes'' \<in> d \<longleftrightarrow> ''Shoes'' \<in> d'" by (rule assms) (simp add: known_labels_def)
  moreover have "''Helmet'' \<in> d \<longleftrightarrow> ''Helmet'' \<in> d'" by (rule assms) (simp add: known_labels_def)
  moreover have "''Welding Helmet'' \<in> d \<longleftrightarrow> ''Welding Helmet'' \<in> d'"
    by (rule assms) (simp add: known_labels_def)
  moreover have "''Goggles'' \<in> d \<longleftrightarrow> ''Goggles'' \<in> d'" by (rule assms) (simp add: known_labels_def)
  ultimately show ?thesis by (simp add: missing_of_def required_ppe_def Let_def)
qed

lemma Headgear_missing_iff:
  "''Headgear'' \<in> set (missing_of d) \<longleftrightarrow>
     ''Helmet'' \<notin> d \<and> ''Welding Helmet'' \<notin> d \<and> ''Goggles'' \<notin> d"
  by (simp add: missing_of_def required_ppe_def Let_def)

lemma gear_name_known:
  "gear_name 1 = ''Helmet''" "gear_name 2 = ''Welding Helmet''" "gear_name 3 = ''Goggles''"
  "gear_name 4 = ''Vest''" "gear_name 5 = ''Gloves''" "gear_name 6 = ''Shoes''"
  by (simp_all add: gear_name_def class_mapping_def)

lemma gear_name_unknown:
  assumes "c \<notin> {1, 2, 3, 4, 5, 6}"
  shows "gear_name c = ''Class_'' @ py_str c" and "gear_name c \<notin> known_labels"
proof -
  show g: "gear_name c = ''Class_'' @ py_str c"
    using assms by (simp add: gear_name_def class_mapping_def)
  show "gear_name c \<notin> known_labels" unfolding g by (simp add: known_labels_def)
qed

lemma gear_name_known_iff:
  "gear_name c \<in> known_labels \<longleftrightarrow> c \<in> {1, 2, 3, 4, 5, 6}"
  using gear_name_unknown(2) [of c] by (auto simp: gear_name_known known_labels_def)

lemma get_missing_gear_eq:
  "get_missing_gear pb bs cs =
     Inr (missing_of (set (map (\<lambda>z. gear_name (snd z))
            (filter (\<lambda>z. is_associated pb (fst z) (snd z) = Inr True) (zip bs cs)))))"
  by (simp add: get_missing_gear_def detected_gear_eq)

lemma get_missing_gear_legacy_eq:
  "get_missing_gear_legacy pb bs cs = missing_of (detected_gear_legacy pb (zip bs cs) {})"
  by (simp add: get_missing_gear_legacy_def missing_of_def required_ppe_def Let_def)

lemma zip_insert_one:
  assumes "length bs1 = length cs1"
  shows "zip (bs1 @ b # bs2) (cs1 @ c # cs2) = zip bs1 cs1 @ (b, c) # zip bs2 cs2"
    and "zip (bs1 @ bs2) (cs1 @ cs2) = zip bs1 cs1 @ zip bs2 cs2"
  using assms by simp_all

lemma remove_unassociated:
  assumes "is_associated pb b c = Inr False" and "length bs1 = length cs1"
  shows "get_missing_gear pb (bs1 @ b # bs2) (cs1 @ c # cs2)
           = get_missing_gear pb (bs1 @ bs2) (cs1 @ cs2)"
  using assms(1) by (simp add: get_missing_gear_eq zip_insert_one [OF assms(2)])

lemma remove_unknown:
  assumes "c \<notin> {1, 2, 3, 4, 5, 6}" and "length bs1 = length cs1"
  shows "get_missing_gear pb (bs1 @ b # bs2) (cs1 @ c # cs2)
           = get_missing_gear pb (bs1 @ bs2) (cs1 @ cs2)"
proof -
  have nk: "gear_name c \<notin> known_labels" using assms(1) by (rule gear_name_unknown(2))
  have "missing_of (set (map (\<lambda>z. gear_name (snd z))
            (filter (\<lambda>z. is_associated pb (fst z) (snd z) = Inr True)
               (zip bs1 cs1 @ (b, c) # zip bs2 cs2))))
      = missing_of (set (map (\<lambda>z. gear_name (snd z))
            (filter (\<lambda>z. is_associated pb (fst z) (snd z) = Inr True)
               (zip bs1 cs1 @ zip bs2 cs2))))"
  proof (rule missing_of_cong)
    fix l assume "l \<in> known_labels"
    then have "l \<noteq> gear_name c" using nk by auto
    then show "l \<in> set (map (\<lambda>z. gear_name (snd z))
            (filter (\<lambda>z. is_associated pb (fst z) (snd z) = Inr True)
               (zip bs1 cs1 @ (b, c) # zip bs2 cs2)))
        \<longleftrightarrow> l \<in> set (map (\<lambda>z. gear_name (snd z))
            (filter (\<lambda>z. is_associated pb (fst z) (snd z) = Inr True)
               (zip bs1 cs1 @ zip bs2 cs2)))"
      by auto
  qed
  then show ?thesis by (simp add: get_missing_gear_eq zip_insert_one [OF assms(2)])
qed

lemma is_associated_helmet:
  assumes "c = 1 \<or> c = 2"
  shows "is_associated (px1, py1, px2, py2) (ix1, iy1, ix2, iy2) c =
           Inr ((px1 \<le> (ix1 + ix2) / 2 \<and> (ix1 + ix2) / 2 \<le> px2)
                \<and> (py1 \<le> (iy1 + iy2) / 2 \<and> (iy1 + iy2) / 2 \<le> py1 + (py2 - py1) / 3))"
  using assms by (auto simp: is_associated_def Let_def)

lemma is_associated_default:
  assumes "c \<notin> {1, 2, 3, 4, 5, 6}"
  shows "is_associated (px1, py1, px2, py2) (ix1, iy1, ix2, iy2) c =
           Inr ((px1 \<le> (ix1 + ix2) / 2 \<and> (ix1 + ix2) / 2 \<le> px2)
                \<and> (py1 \<le> (iy1 + iy2) / 2 \<and> (iy1 + iy2) / 2 \<le> py2))"
  using assms by (simp add: is_associated_def Let_def)

lemma helmet_satisfies_headgear:
  assumes "c = 1 \<or> c = 2" and "(b, c) \<in> set (zip bs cs)" and "is_associated pb b c = Inr True"
  shows "\<exists>m. get_missing_gear pb bs cs = Inr m \<and> ''Headgear'' \<notin> set m"
proof -
  let ?d = "set (map (\<lambda>z. gear_name (snd z))
            (filter (\<lambda>z. is_associated pb (fst z) (snd z) = Inr True) (zip bs cs)))"
  have mem: "gear_name c \<in> ?d" using assms(2,3) by force
  have "''Helmet'' \<in> ?d \<or> ''Welding Helmet'' \<in> ?d"
  proof (cases "c = 1")
    case True
    then have "gear_name c = ''Helmet''" by (simp add: gear_name_known)
    then show ?thesis using mem by (simp only: simp_thms)
  next
    case False
    then have "c = 2" using assms(1) by simp
    then have "gear_name c = ''Welding Helmet''" by (simp add: gear_name_known)
    then show ?thesis using mem by (simp only: simp_thms)
  qed
  then have "''Headgear'' \<notin> set (missing_of ?d)" by (simp only: Headgear_missing_iff) blast
  then show ?thesis by (simp add: get_missing_gear_eq)
qed

lemma detected_gear_legacy_eq:
  "detected_gear_legacy pb zs acc =
     acc \<union> set (map (\<lambda>z. gear_name (snd z))
                (filter (\<lambda>z. snd z \<in> {1, 2, 3, 4, 5, 6} \<and> center_inside pb (fst z)) zs))"
proof (induction zs arbitrary: acc)
  case Nil
  then show ?case by simp
next
  case (Cons z zs)
  obtain b c where z: "z = (b, c)" by (cases z)
  obtain x1 y1 x2 y2 where p: "pb = (x1, y1, x2, y2)" by (cases pb)
  obtain bx1 by1 bx2 by2 where b: "b = (bx1, by1, bx2, by2)" by (cases b)
  show ?case
    unfolding z p b
    by (simp add: Cons.IH [unfolded p] center_inside_def gear_name_known Let_def)
qed

lemma agree_when_rules_agree:
  assumes "\<And>b c. (b, c) \<in> set (zip bs cs) \<Longrightarrow> c \<in> {1, 2, 3, 4, 5, 6}
             \<Longrightarrow> is_associated pb b c = Inr (center_inside pb b)"
  shows "get_missing_gear pb bs cs = Inr (get_missing_gear_legacy pb bs cs)"
proof -
  have "missing_of (set (map (\<lambda>z. gear_name (snd z))
            (filter (\<lambda>z. is_associated pb (fst z) (snd z) = Inr True) (zip bs cs))))
      = missing_of (detected_gear_legacy pb (zip bs cs) {})"
  proof (rule missing_of_cong)
    fix l assume l: "l \<in> known_labels"
    show "l \<in> set (map (\<lambda>z. gear_name (snd z))
            (filter (\<lambda>z. is_associated pb (fst z) (snd z) = Inr True) (zip bs cs)))
        \<longleftrightarrow> l \<in> detected_gear_legacy pb (zip bs cs) {}"
    proof
      assume "l \<in> set (map (\<lambda>z. gear_name (snd z))
            (filter (\<lambda>z. is_associated pb (fst z) (snd z) = Inr True) (zip bs cs)))"
      then obtain b c where bc: "(b, c) \<in> set (zip bs cs)" and a: "is_associated pb b c = Inr True"
        and g: "l = gear_name c" by auto
      from l g have k: "c \<in> {1, 2, 3, 4, 5, 6}" by (simp only: gear_name_known_iff)
      from assms [OF bc k] a have "center_inside pb b" by simp
      with bc k g show "l \<in> detected_gear_legacy pb (zip bs cs) {}"
        by (force simp: detected_gear_legacy_eq)
    next
      assume "l \<in> detected_gear_legacy pb (zip bs cs) {}"
      then obtain b c where bc: "(b, c) \<in> set (zip bs cs)" and k: "c \<in> {1, 2, 3, 4, 5, 6}"
        and i: "center_inside pb b" and g: "l = gear_name c"
        by (auto simp: detected_gear_legacy_eq)
      from assms [OF bc k] i have "is_associated pb b c = Inr True" by simp
      with bc g show "l \<in> set (map (\<lambda>z. gear_name (snd z))
            (filter (\<lambda>z. is_associated pb (fst z) (snd z) = Inr True) (zip bs cs)))"
        by force
    qed
  qed
  then show ?thesis by (simp add: get_missing_gear_eq get_missing_gear_legacy_eq)
qed

text \<open>
  C4. When no equipment detection is supplied (the list of boxes, or the list of classes,
  is empty) the loop detects nothing, no error is raised, and the missing items are the
  full required list: Vest, Gloves, Shoes, Headgear.
\<close>

theorem get_missing_gear_no_equipment:
  "detected_gear person_box (zip [] ppe_classes) {} = Inr {}
   \<and> get_missing_gear person_box [] ppe_classes = Inr [''Vest'', ''Gloves'', ''Shoes'', ''Headgear'']
   \<and> detected_gear person_box (zip ppe_boxes []) {} = Inr {}
   \<and> get_missing_gear person_box ppe_boxes [] = Inr [''Vest'', ''Gloves'', ''Shoes'', ''Headgear'']"
  by (simp add: get_missing_gear_def missing_of_def required_ppe_def)

theorem get_missing_gear_no_equipment_witness:
  "get_missing_gear (0, 0, 100, 300) [] [] = Inr [''Vest'', ''Gloves'', ''Shoes'', ''Headgear'']
   \<and> get_missing_gear (100, 300, 0, 0) [] [1, 4] = Inr [''Vest'', ''Gloves'', ''Shoes'', ''Headgear'']"
  using get_missing_gear_no_equipment [of "(0, 0, 100, 300)" "[]" "[]"]
    get_missing_gear_no_equipment [of "(100, 300, 0, 0)" "[1, 4]" "[]"]
  by simp

text \<open>
  C5. For the classes 1 (Helmet) and 2 (Welding Helmet), \<^const>\<open>is_associated\<close> holds
  exactly when the centre of the item box lies within the horizontal extent of the person
  and between the top edge and one third of the height below it. A helmet so placed, among
  any detections, keeps Headgear out of the missing items. The same helmet with its centre
  below the top third is not associated: alone it leaves Headgear missing, and among other
  detections the result is the one obtained without it.
\<close>

theorem helmet_rule:
  assumes "c = 1 \<or> c = 2"
  shows "is_associated (px1, py1, px2, py2) (ix1, iy1, ix2, iy2) c =
           Inr ((px1 \<le> (ix1 + ix2) / 2 \<and> (ix1 + ix2) / 2 \<le> px2)
                \<and> (py1 \<le> (iy1 + iy2) / 2 \<and> (iy1 + iy2) / 2 \<le> py1 + (py2 - py1) / 3))
       \<and> (((ix1, iy1, ix2, iy2), c) \<in> set (zip bs cs)
            \<and> is_associated (px1, py1, px2, py2) (ix1, iy1, ix2, iy2) c = Inr True
           \<longrightarrow> (\<exists>m. get_missing_gear (px1, py1, px2, py2) bs cs = Inr m \<and> ''Headgear'' \<notin> set m))
       \<and> ((iy1 + iy2) / 2 > py1 + (py2 - py1) / 3
           \<longrightarrow> is_associated (px1, py1, px2, py2) (ix1, iy1, ix2, iy2) c = Inr False
             \<and> get_missing_gear (px1, py1, px2, py2) [(ix1, iy1, ix2, iy2)] [c]
                 = Inr [''Vest'', ''Gloves'', ''Shoes'', ''Headgear'']
             \<and> (length bs1 = length cs1
                 \<longrightarrow> get_missing_gear (px1, py1, px2, py2)
                        (bs1 @ (ix1, iy1, ix2, iy2) # bs2) (cs1 @ c # cs2)
                      = get_missing_gear (px1, py1, px2, py2) (bs1 @ bs2) (cs1 @ cs2)))"
proof (intro conjI impI)
  show "is_associated (px1, py1, px2, py2) (ix1, iy1, ix2, iy2) c =
           Inr ((px1 \<le> (ix1 + ix2) / 2 \<and> (ix1 + ix2) / 2 \<le> px2)
                \<and> (py1 \<le> (iy1 + iy2) / 2 \<and> (iy1 + iy2) / 2 \<le> py1 + (py2 - py1) / 3))"
    using assms by (rule is_associated_helmet)
next
  assume "((ix1, iy1, ix2, iy2), c) \<in> set (zip bs cs)
            \<and> is_associated (px1, py1, px2, py2) (ix1, iy1, ix2, iy2) c = Inr True"
  then show "\<exists>m. get_missing_gear (px1, py1, px2, py2) bs cs = Inr m \<and> ''Headgear'' \<notin> set m"
    using helmet_satisfies_headgear [OF assms] by blast
next
  assume below: "(iy1 + iy2) / 2 > py1 + (py2 - py1) / 3"
  then show no: "is_associated (px1, py1, px2, py2) (ix1, iy1, ix2, iy2) c = Inr False"
    by (simp add: is_associated_helmet [OF assms])
  from remove_unassociated [OF no, of "[]" "[]" "[]" "[]"]
  show "get_missing_gear (px1, py1, px2, py2) [(ix1, iy1, ix2, iy2)] [c]
                 = Inr [''Vest'', ''Gloves'', ''Shoes'', ''Headgear'']"
    by (simp add: get_missing_gear_def missing_of_def required_ppe_def)
  assume "length bs1 = length cs1"
  with no show "get_missing_gear (px1, py1, px2, py2)
                        (bs1 @ (ix1, iy1, ix2, iy2) # bs2) (cs1 @ c # cs2)
                      = get_missing_gear (px1, py1, px2, py2) (bs1 @ bs2) (cs1 @ cs2)"
    by (rule remove_unassociated)
qed

theorem helmet_rule_witness:
  "is_associated (0, 0, 100, 300) (40, 10, 60, 30) 1 = Inr True
   \<and> get_missing_gear (0, 0, 100, 300) [(40, 10, 60, 30)] [1] = Inr [''Vest'', ''Gloves'', ''Shoes'']
   \<and> is_associated (0, 0, 100, 300) (40, 190, 60, 210) 1 = Inr False
   \<and> get_missing_gear (0, 0, 100, 300) [(40, 190, 60, 210)] [1]
       = Inr [''Vest'', ''Gloves'', ''Shoes'', ''Headgear'']
   \<and> get_missing_gear (0, 0, 100, 300) [(40, 190, 60, 210)] [2]
       = Inr [''Vest'', ''Gloves'', ''Shoes'', ''Headgear'']"
  using helmet_rule [of 1 0 0 100 300 40 10 60 30 "[(40, 10, 60, 30)]" "[1]" "[]" "[]" "[]" "[]"]
    helmet_rule [of 1 0 0 100 300 40 190 60 210 "[]" "[]" "[]" "[]" "[]" "[]"]
    helmet_rule [of 2 0 0 100 300 40 190 60 210 "[]" "[]" "[]" "[]" "[]" "[]"]
  by (simp add: get_missing_gear_def missing_of_def required_ppe_def gear_name_known)

text \<open>
  C9. A detection whose class id is outside 1 to 6 is judged by the default rule (centre
  inside the person box); its label is \<open>Class_\<close> followed by the id, which is none of
  the labels looked for, so the missing items are those computed with the detection
  removed, whether the rule accepts it or not.
\<close>

theorem unknown_class_ignored:
  assumes "c \<notin> {1, 2, 3, 4, 5, 6}" and "length bs1 = length cs1"
  shows "is_associated (px1, py1, px2, py2) (ix1, iy1, ix2, iy2) c =
           Inr ((px1 \<le> (ix1 + ix2) / 2 \<and> (ix1 + ix2) / 2 \<le> px2)
                \<and> (py1 \<le> (iy1 + iy2) / 2 \<and> (iy1 + iy2) / 2 \<le> py2))
       \<and> gear_name c = ''Class_'' @ py_str c
       \<and> gear_name c \<notin> set [''Vest'', ''Gloves'', ''Shoes'', ''Helmet'', ''Welding Helmet'', ''Goggles'']
       \<and> get_missing_gear (px1, py1, px2, py2) (bs1 @ (ix1, iy1, ix2, iy2) # bs2) (cs1 @ c # cs2)
           = get_missing_gear (px1, py1, px2, py2) (bs1 @ bs2) (cs1 @ cs2)"
proof (intro conjI)
  show "is_associated (px1, py1, px2, py2) (ix1, iy1, ix2, iy2) c =
           Inr ((px1 \<le> (ix1 + ix2) / 2 \<and> (ix1 + ix2) / 2 \<le> px2)
                \<and> (py1 \<le> (iy1 + iy2) / 2 \<and> (iy1 + iy2) / 2 \<le> py2))"
    using assms(1) by (rule is_associated_default)
  show "gear_name c = ''Class_'' @ py_str c" using assms(1) by (rule gear_name_unknown(1))
  show "gear_name c \<notin> set [''Vest'', ''Gloves'', ''Shoes'', ''Helmet'', ''Welding Helmet'', ''Goggles'']"
    using gear_name_unknown(2) [OF assms(1)] by (simp add: known_labels_def)
  show "get_missing_gear (px1, py1, px2, py2) (bs1 @ (ix1, iy1, ix2, iy2) # bs2) (cs1 @ c # cs2)
           = get_missing_gear (px1, py1, px2, py2) (bs1 @ bs2) (cs1 @ cs2)"
    using assms by (rule remove_unknown)
qed

theorem unknown_class_ignored_witness:
  "is_associated (0, 0, 100, 300) (40, 100, 60, 120) 7 = Inr True
   \<and> gear_name 7 = ''Class_7''
   \<and> get_missing_gear (0, 0, 100, 300) [(40, 10, 60, 30), (40, 100, 60, 120)] [1, 7]
       = Inr [''Vest'', ''Gloves'', ''Shoes'']
   \<and> get_missing_gear (0, 0, 100, 300) [(40, 10, 60, 30)] [1]
       = Inr [''Vest'', ''Gloves'', ''Shoes'']"
  using unknown_class_ignored [of 7 "[(40, 10, 60, 30)]" "[1]" 0 0 100 300 40 100 60 120 "[]" "[]"]
  by (simp add: get_missing_gear_def missing_of_def required_ppe_def gear_name_known
        is_associated_def py_str_def digits10.simps)

text \<open>
  C8, as the code has it. The legacy and the backend \<^const>\<open>get_missing_gear\<close> return
  the same missing items whenever, on every supplied detection with a class id from 1 to 6,
  the backend rule \<^const>\<open>is_associated\<close> decides as the legacy test
  \<^const>\<open>center_inside\<close> does.
\<close>

theorem legacy_backend_agree_when_rules_agree:
  assumes "\<forall>(b, c) \<in> set (zip bs cs). c \<in> {1, 2, 3, 4, 5, 6}
             \<longrightarrow> is_associated pb b c = Inr (center_inside pb b)"
  shows "get_missing_gear pb bs cs = Inr (get_missing_gear_legacy pb bs cs)"
proof (rule agree_when_rules_agree)
  fix b c assume "(b, c) \<in> set (zip bs cs)" and "c \<in> {1, 2, 3, 4, 5, 6}"
  with assms show "is_associated pb b c = Inr (center_inside pb b)" by blast
qed

theorem legacy_backend_agree_when_rules_agree_witness:
  "get_missing_gear (0, 0, 100, 300) [(40, 10, 60, 30), (40, 100, 60, 120), (30, 90, 70, 150)] [1, 7, 4]
     = Inr [''Gloves'', ''Shoes'']
   \<and> get_missing_gear_legacy (0, 0, 100, 300)
       [(40, 10, 60, 30), (40, 100, 60, 120), (30, 90, 70, 150)] [1, 7, 4]
     = [''Gloves'', ''Shoes'']"
  using legacy_backend_agree_when_rules_agree
    [of "[(40, 10, 60, 30), (40, 100, 60, 120), (30, 90, 70, 150)]" "[1, 7, 4]" "(0, 0, 100, 300)"]
  by (simp add: get_missing_gear_legacy_def is_associated_def center_inside_def)

text \<open>
  In general the two differ: a helmet whose centre is inside the person box but below its
  top third is head protection for the legacy function and not for the backend.
\<close>

theorem legacy_backend_differ_counterexample:
  "get_missing_gear_legacy (0, 0, 100, 300) [(40, 190, 60, 210)] [1]
     = [''Vest'', ''Gloves'', ''Shoes'']
   \<and> get_missing_gear (0, 0, 100, 300) [(40, 190, 60, 210)] [1]
     = Inr [''Vest'', ''Gloves'', ''Shoes'', ''Headgear'']
   \<and> get_missing_gear (0, 0, 100, 300) [(40, 190, 60, 210)] [1]
     \<noteq> Inr (get_missing_gear_legacy (0, 0, 100, 300) [(40, 190, 60, 210)] [1])"
  by (simp add: get_missing_gear_def get_missing_gear_legacy_def is_associated_def
        missing_of_def required_ppe_def)

section \<open>Properties of the monitoring tick\<close>

lemma get_missing_gear_total: "\<exists>m. get_missing_gear pb bs cs = Inr m"
  by (simp add: get_missing_gear_eq)

lemma process_person_total:
  assumes wf: "\<And>w. worker_db st pid = Some w \<Longrightarrow> strikes w \<noteq> None"
  shows "\<exists>st'. process_person st pid pbox bs cs cd now ev ts = Inr st'"
proof -
  let ?w = "case worker_db st pid of
                  Some w \<Rightarrow> w
                | None \<Rightarrow> \<lparr>strikes = Some 0, last_violation = Some [], last_strike_time = Some 0\<rparr>"
  obtain m where m: "get_missing_gear pbox bs cs = Inr m"
    using get_missing_gear_total by blast
  have "strikes ?w \<noteq> None" using wf by (cases "worker_db st pid") simp_all
  then obtain n where n: "strikes ?w = Some n" by blast
  from update_strikes_step [OF n, of m cd now] obtain w' flag
    where u: "update_strikes ?w m cd now = Inr (w', flag)"
      and s: "strikes w' = Some (n + (if flag then 1 else 0))" by blast
  show ?thesis by (simp add: process_person_unfold [OF m u] s)
qed

lemma process_person_event:
  assumes "process_person st pid pbox bs cs cd now ev ts = Inr st'"
  shows "\<exists>m w1 flag.
            get_missing_gear pbox bs cs = Inr m
          \<and> update_strikes
               (case worker_db st pid of
                  Some w0 \<Rightarrow> w0
                | None \<Rightarrow> \<lparr>strikes = Some 0, last_violation = Some [], last_strike_time = Some 0\<rparr>)
               m cd now = Inr (w1, flag)
          \<and> (if flag
               then m \<noteq> []
                 \<and> (\<exists>s. strikes w1 = Some s
                      \<and> violation_log st' = violation_log st @ [record_violation pid m s ev ts]
                      \<and> database st' = save_violation (database st) (record_violation pid m s ev ts))
               else violation_log st' = violation_log st \<and> database st' = database st)"
proof -
  let ?w = "case worker_db st pid of
                  Some w0 \<Rightarrow> w0
                | None \<Rightarrow> \<lparr>strikes = Some 0, last_violation = Some [], last_strike_time = Some 0\<rparr>"
  obtain m where m: "get_missing_gear pbox bs cs = Inr m"
    using get_missing_gear_total by blast
  have db: "(if pid \<notin> dom (worker_db st)
             then (worker_db st)(pid \<mapsto> \<lparr>strikes = Some 0, last_violation = Some [], last_strike_time = Some 0\<rparr>)
             else worker_db st) pid = Some ?w"
    by (auto simp: domIff)
  obtain w1 flag where u: "update_strikes ?w m cd now = Inr (w1, flag)"
    using assms m db
    by (cases "update_strikes ?w m cd now") (auto simp: process_person_def Let_def)
  note eq = process_person_unfold [OF m u, of ev ts]
  show ?thesis
  proof (cases flag)
    case True
    from u True have "update_strikes ?w m cd now = Inr (w1, True)" by simp
    then have ne: "m \<noteq> []" by (rule update_strikes_flag_nonempty)
    obtain s where s: "strikes w1 = Some s"
      using assms eq True by (cases "strikes w1") simp_all
    from assms eq True s have st':
      "st' = st\<lparr>worker_db := (worker_db st)(pid \<mapsto> w1),
                 database := save_violation (database st) (record_violation pid m s ev ts),
                 violation_log := violation_log st @ [record_violation pid m s ev ts]\<rparr>"
      by simp
    show ?thesis
      apply (rule exI [of _ m], rule exI [of _ w1], rule exI [of _ flag])
      apply (simp only: m u True if_True)
      apply (simp add: st' s ne)
      done
  next
    case False
    from assms eq False have st': "st' = st\<lparr>worker_db := (worker_db st)(pid \<mapsto> w1)\<rparr>"
      by simp
    show ?thesis
      apply (rule exI [of _ m], rule exI [of _ w1], rule exI [of _ flag])
      apply (simp only: m u False if_False)
      apply (simp add: st')
      done
  qed
qed

text \<open>
  C6. \<^const>\<open>update_strikes\<close> returns true only on a non-empty list of missing items, and
  the tick appends a violation record to the log and to the stored table only when
  \<^const>\<open>update_strikes\<close> returned true on the missing items of that person, which are
  then non-empty; otherwise the log and the table are left as they were. The tick returns
  a state whenever the worker found in the registry has a strike count.
\<close>

theorem violation_only_when_missing:
  "(update_strikes w missing_items cooldown now = Inr (w', True) \<longrightarrow> missing_items \<noteq> [])
   \<and> (process_person st pid pbox bs cs cooldown now ev ts = Inr st' \<longrightarrow>
        (\<exists>m w1 flag.
            get_missing_gear pbox bs cs = Inr m
          \<and> update_strikes
               (case worker_db st pid of
                  Some w0 \<Rightarrow> w0
                | None \<Rightarrow> \<lparr>strikes = Some 0, last_violation = Some [], last_strike_time = Some 0\<rparr>)
               m cooldown now = Inr (w1, flag)
          \<and> (if flag
               then m \<noteq> []
                 \<and> (\<exists>s. strikes w1 = Some s
                      \<and> violation_log st' = violation_log st @ [record_violation pid m s ev ts]
                      \<and> database st' = save_violation (database st) (record_violation pid m s ev ts))
               else violation_log st' = violation_log st \<and> database st' = database st)))
   \<and> ((\<forall>w0. worker_db st pid = Some w0 \<longrightarrow> strikes w0 \<noteq> None) \<longrightarrow>
        (\<exists>st1. process_person st pid pbox bs cs cooldown now ev ts = Inr st1))"
proof (intro conjI impI)
  assume "update_strikes w missing_items cooldown now = Inr (w', True)"
  then show "missing_items \<noteq> []" by (rule update_strikes_flag_nonempty)
next
  assume "process_person st pid pbox bs cs cooldown now ev ts = Inr st'"
  then show "\<exists>m w1 flag.
            get_missing_gear pbox bs cs = Inr m
          \<and> update_strikes
               (case worker_db st pid of
                  Some w0 \<Rightarrow> w0
                | None \<Rightarrow> \<lparr>strikes = Some 0, last_violation = Some [], last_strike_time = Some 0\<rparr>)
               m cooldown now = Inr (w1, flag)
          \<and> (if flag
               then m \<noteq> []
                 \<and> (\<exists>s. strikes w1 = Some s
                      \<and> violation_log st' = violation_log st @ [record_violation pid m s ev ts]
                      \<and> database st' = save_violation (database st) (record_violation pid m s ev ts))
               else violation_log st' = violation_log st \<and> database st' = database st)"
    by (rule process_person_event)
next
  assume wf: "\<forall>w0. worker_db st pid = Some w0 \<longrightarrow> strikes w0 \<noteq> None"
  show "\<exists>st1. process_person st pid pbox bs cs cooldown now ev ts = Inr st1"
  proof (rule process_person_total)
    fix w0 assume "worker_db st pid = Some w0"
    with wf show "strikes w0 \<noteq> None" by blast
  qed
qed

theorem violation_only_when_missing_witness:
  "process_person \<lparr>worker_db = Map.empty, violation_log = [], database = []\<rparr>
       7 (0, 0, 100, 300) [(40, 190, 60, 210)] [1] 5 1000 None ''2024-01-01 00:00:00''
     = Inr \<lparr>worker_db = [7 \<mapsto> \<lparr>strikes = Some 1,
                last_violation = Some [''Gloves'', ''Headgear'', ''Shoes'', ''Vest''],
                last_strike_time = Some 1000\<rparr>],
            violation_log = [\<lparr>Time = ''2024-01-01 00:00:00'', ID = ''Worker-7'',
                Violation = ''Vest, Gloves, Shoes, Headgear'', Strikes = 1, Evidence = []\<rparr>],
            database = [\<lparr>Time = ''2024-01-01 00:00:00'', ID = ''Worker-7'',
                Violation = ''Vest, Gloves, Shoes, Headgear'', Strikes = 1, Evidence = []\<rparr>]\<rparr>
   \<and> get_missing_gear (0, 0, 100, 300) [(40, 190, 60, 210)] [1]
       = Inr [''Vest'', ''Gloves'', ''Shoes'', ''Headgear'']
   \<and> update_strikes \<lparr>strikes = Some 0, last_violation = Some [], last_strike_time = Some 0\<rparr>
        [''Vest'', ''Gloves'', ''Shoes'', ''Headgear''] 5 1000
       = Inr (\<lparr>strikes = Some 1,
                last_violation = Some [''Gloves'', ''Headgear'', ''Shoes'', ''Vest''],
                last_strike_time = Some 1000\<rparr>, True)
   \<and> [''Vest'', ''Gloves'', ''Shoes'', ''Headgear''] \<noteq> ([] :: string list)"
proof -
  have g: "get_missing_gear (0, 0, 100, 300) [(40, 190, 60, 210)] [1]
       = Inr [''Vest'', ''Gloves'', ''Shoes'', ''Headgear'']"
    by (simp add: get_missing_gear_def is_associated_def missing_of_def required_ppe_def)
  have u: "update_strikes \<lparr>strikes = Some 0, last_violation = Some [], last_strike_time = Some 0\<rparr>
        [''Vest'', ''Gloves'', ''Shoes'', ''Headgear''] 5 1000
       = Inr (\<lparr>strikes = Some 1,
                last_violation = Some [''Gloves'', ''Headgear'', ''Shoes'', ''Vest''],
                last_strike_time = Some 1000\<rparr>, True)"
    by (simp add: update_strikes_def)
  have i: "py_str 7 = ''7''"
    by (simp add: py_str_def digits10.simps)
  have p: "process_person \<lparr>worker_db = Map.empty, violation_log = [], database = []\<rparr>
       7 (0, 0, 100, 300) [(40, 190, 60, 210)] [1] 5 1000 None ''2024-01-01 00:00:00''
     = Inr \<lparr>worker_db = [7 \<mapsto> \<lparr>strikes = Some 1,
                last_violation = Some [''Gloves'', ''Headgear'', ''Shoes'', ''Vest''],
                last_strike_time = Some 1000\<rparr>],
            violation_log = [\<lparr>Time = ''2024-01-01 00:00:00'', ID = ''Worker-7'',
                Violation = ''Vest, Gloves, Shoes, Headgear'', Strikes = 1, Evidence = []\<rparr>],
            database = [\<lparr>Time = ''2024-01-01 00:00:00'', ID = ''Worker-7'',
                Violation = ''Vest, Gloves, Shoes, Headgear'', Strikes = 1, Evidence = []\<rparr>]\<rparr>"
    by (simp add: process_person_def g u i record_violation_def save_violation_def Let_def)
  have ne: "[''Vest'', ''Gloves'', ''Shoes'', ''Headgear''] \<noteq> ([] :: string list)"
    by (rule violation_only_when_missing [of
      "\<lparr>strikes = Some 0, last_violation = Some [], last_strike_time = Some 0\<rparr>"
      "[''Vest'', ''Gloves'', ''Shoes'', ''Headgear'']" 5 1000
      "\<lparr>strikes = Some 1, last_violation = Some [''Gloves'', ''Headgear'', ''Shoes'', ''Vest''],
        last_strike_time = Some 1000\<rparr>"
      "\<lparr>worker_db = Map.empty, violation_log = [], database = []\<rparr>"
      7 "(0, 0, 100, 300)" "[(40, 190, 60, 210)]" "[1]" None "''2024-01-01 00:00:00''",
      THEN conjunct1, THEN mp, OF u])
  show ?thesis by (intro conjI) (rule p g u ne)+
qed

end
